theory Spec2Isabelle
  imports Complex_Main
begin

section \<open>JavaScript values\<close>

text \<open>
  The values a handler can return or throw. A number is an IEEE double: a finite value
  (\<open>Finite 0\<close> is \<open>+0\<close>), the negative zero, \<open>NaN\<close> or an infinity. An object is its
  list of own data properties; functions, arrays and class instances are objects too.
  Accessor properties and proxies are outside this model.
\<close>

datatype jsnumber = Finite rat | NegZero | NaN | PosInf | NegInf

datatype jsval =
    JUndefined
  | JNull
  | JBool bool
  | JNum jsnumber
  | JBigInt int
  | JStr string
  | JSymbol string
  | JObj "(string \<times> jsval) list"

text \<open>\<open>ToBoolean\<close>: the test of \<open>if (res)\<close> and of the left operand of \<open>||\<close>.\<close>

fun truthy :: "jsval \<Rightarrow> bool" where
  "truthy JUndefined = False"
| "truthy JNull = False"
| "truthy (JBool b) = b"
| "truthy (JNum (Finite q)) = (q \<noteq> 0)"
| "truthy (JNum NegZero) = False"
| "truthy (JNum NaN) = False"
| "truthy (JNum PosInf) = True"
| "truthy (JNum NegInf) = True"
| "truthy (JBigInt i) = (i \<noteq> 0)"
| "truthy (JStr s) = (s \<noteq> [])"
| "truthy (JSymbol s) = True"
| "truthy (JObj fs) = True"

text \<open>\<open>a || b\<close> on values already evaluated.\<close>

definition js_or :: "jsval \<Rightarrow> jsval \<Rightarrow> jsval" where
  "js_or a b = (if truthy a then a else b)"

text \<open>\<open>v === n\<close> for a number literal \<open>n\<close> that is finite and not zero.\<close>

definition strict_equals_num :: "jsval \<Rightarrow> rat \<Rightarrow> bool" where
  "strict_equals_num v n = (v = JNum (Finite n))"

text \<open>The \<open>TypeError\<close> the engine throws when a property of \<open>null\<close> or \<open>undefined\<close> is read.\<close>

definition TypeError :: "string \<Rightarrow> jsval" where
  "TypeError msg = JObj [(''name'', JStr ''TypeError''), (''message'', JStr msg)]"

text \<open>
  Reading property \<open>k\<close> of \<open>v\<close>: it throws on \<open>null\<close> and \<open>undefined\<close>, finds an own
  property of an object, and is \<open>undefined\<close> otherwise. The properties read in this
  program (\<open>data\<close>, \<open>status\<close>, \<open>message\<close>) are on no primitive's prototype.
\<close>

fun get_prop :: "jsval \<Rightarrow> string \<Rightarrow> jsval + jsval" where
  "get_prop JUndefined k = Inl (TypeError (''Cannot read properties of undefined''))"
| "get_prop JNull k = Inl (TypeError (''Cannot read properties of null''))"
| "get_prop (JObj fs) k = Inr (case map_of fs k of None \<Rightarrow> JUndefined | Some x \<Rightarrow> x)"
| "get_prop v k = Inr JUndefined"

section \<open>Request dispatch: \<open>handleRoute\<close>\<close>

text \<open>
  The Koa context of one request: the response's \<open>status\<close> and \<open>body\<close>, which dispatch
  assigns, and the request \<open>'r\<close>, which only the extractor \<open>getParam\<close> reads. The
  \<open>status\<close> is the one assigned to the response, the \<open>body\<close> the value assigned; the
  response has not been sent. What Koa derives from an assigned body (a content type, a
  length, a status when none was assigned) is not kept.
\<close>

record 'r Context =
  request :: 'r
  status :: jsval
  body :: jsval

text \<open>
  One parameter binding of the parameter store: the position of the decorated argument,
  the kind of extraction and its argument. The store and the extractor are not part of
  these sources, so the kinds \<open>'t\<close> and the metadata \<open>'m\<close> stay abstract.
\<close>

record ('t, 'm) param =
  index :: nat
  type :: 't
  meta :: 'm

text \<open>How an asynchronous middleware ends: its promise resolves, or rejects with a value.\<close>

datatype completion = Resolved | Rejected jsval

text \<open>
  \<open>sortedParams.map((param) => getParam(context, param.type, param.meta))\<close>, left to
  right; the first extraction that throws ends the map (\<open>Inl\<close> is the thrown value).
\<close>

fun extract_args ::
  "('r Context \<Rightarrow> 't \<Rightarrow> 'm \<Rightarrow> jsval + jsval) \<Rightarrow> 'r Context \<Rightarrow> ('t, 'm) param list
    \<Rightarrow> jsval + jsval list" where
  "extract_args getParam ctx [] = Inr []"
| "extract_args getParam ctx (p # ps) =
     (case getParam ctx (type p) (meta p) of
        Inl err \<Rightarrow> Inl err
      | Inr v \<Rightarrow>
          (case extract_args getParam ctx ps of
             Inl err \<Rightarrow> Inl err
           | Inr vs \<Rightarrow> Inr (v # vs)))"

text \<open>
  What follows \<open>await cb(...args)\<close> inside the \<open>try\<close>: the handler threw (with the context
  as it left it), or it returned \<open>res\<close>, which becomes the body when it is truthy, rendered
  first when it is a Preact element. \<open>isValidElement\<close> and \<open>render\<close> are Preact's.
\<close>

definition after_call ::
  "(jsval \<Rightarrow> bool) \<Rightarrow> (jsval \<Rightarrow> jsval + jsval) \<Rightarrow> (jsval + jsval) \<times> 'r Context
    \<Rightarrow> (jsval + unit) \<times> 'r Context" where
  "after_call isValidElement render r =
     (case r of
        (Inl err, ctx) \<Rightarrow> (Inl err, ctx)
      | (Inr res, ctx) \<Rightarrow>
          if truthy res then
            if isValidElement res then
              (case render res of
                 Inl err \<Rightarrow> (Inl err, ctx)
               | Inr res' \<Rightarrow> (Inr (), ctx\<lparr>body := res'\<rparr>))
            else (Inr (), ctx\<lparr>body := res\<rparr>)
          else (Inr (), ctx))"

text \<open>The \<open>try\<close> block: extraction, the call of the handler, the assignment of the body.\<close>

definition try_block ::
  "('r Context \<Rightarrow> 't \<Rightarrow> 'm \<Rightarrow> jsval + jsval) \<Rightarrow> (jsval \<Rightarrow> bool) \<Rightarrow> (jsval \<Rightarrow> jsval + jsval)
    \<Rightarrow> (jsval list \<Rightarrow> 'r Context \<Rightarrow> (jsval + jsval) \<times> 'r Context)
    \<Rightarrow> ('t, 'm) param list \<Rightarrow> 'r Context \<Rightarrow> (jsval + unit) \<times> 'r Context" where
  "try_block getParam isValidElement render cb sortedParams ctx =
     (case extract_args getParam ctx sortedParams of
        Inl err \<Rightarrow> (Inl err, ctx)
      | Inr args \<Rightarrow> after_call isValidElement render (cb args ctx))"

text \<open>
  \<open>context.status = code\<close> on a Koa context. The setter of Koa's response asserts
  \<open>Number.isInteger(code)\<close> and \<open>code >= 100 && code <= 999\<close>, and throws where the
  assertion fails; otherwise the status is the code.
\<close>

definition valid_status :: "jsval \<Rightarrow> bool" where
  "valid_status code =
     (case code of
        JNum (Finite q) \<Rightarrow> of_int \<lfloor>q\<rfloor> = q \<and> 100 \<le> q \<and> q \<le> 999
      | _ \<Rightarrow> False)"

definition AssertionError :: "string \<Rightarrow> jsval" where
  "AssertionError msg = JObj [(''name'', JStr ''AssertionError''), (''message'', JStr msg)]"

definition set_status :: "jsval \<Rightarrow> 'r Context \<Rightarrow> jsval + 'r Context" where
  "set_status code ctx =
     (if valid_status code then Inr (ctx\<lparr>status := code\<rparr>)
      else Inl (AssertionError ''invalid status code''))"

text \<open>
  The \<open>catch\<close> block. \<open>const { data, status = 500 } = E\<close> reads both properties
  of the thrown value (a \<open>TypeError\<close> when it is \<open>null\<close> or \<open>undefined\<close>) and takes 500
  for a \<open>status\<close> that is \<open>undefined\<close>; then the two assignments, of which the first
  throws for a status that Koa does not accept. What the block throws leaves the
  asynchronous function, whose promise rejects.
\<close>

definition catch_block :: "jsval \<Rightarrow> 'r Context \<Rightarrow> completion \<times> 'r Context" where
  "catch_block E ctx =
     (case get_prop E ''data'' of
        Inl te \<Rightarrow> (Rejected te, ctx)
      | Inr data \<Rightarrow>
          (case get_prop E ''status'' of
             Inl te \<Rightarrow> (Rejected te, ctx)
           | Inr s \<Rightarrow>
               (let status = (if s = JUndefined then JNum (Finite 500) else s) in
                case set_status status ctx of
                  Inl ae \<Rightarrow> (Rejected ae, ctx)
                | Inr ctx1 \<Rightarrow>
                    (case get_prop E ''message'' of
                       Inl te \<Rightarrow> (Rejected te, ctx1)
                     | Inr message \<Rightarrow>
                         (Resolved,
                          ctx1\<lparr>body := js_or data
                                (JObj [(''status'', status),
                                       (''message'',
                                        js_or message
                                          (if strict_equals_num status 500
                                           then JStr ''Internal Server Error''
                                           else JStr ''''))])\<rparr>)))))"

text \<open>
  \<open>handleRoute(cb, controller, propertyKey)\<close> applied to the context of a request.
  \<open>getParams\<close> is the lookup of the parameter store; the bindings are sorted once, by
  \<open>index\<close>, with the stable sort of \<open>Array.prototype.sort\<close>. The handler \<open>cb\<close> gets the
  arguments and may change the context before it returns or throws.
\<close>

definition handleRoute ::
  "(string \<Rightarrow> string \<Rightarrow> ('t, 'm) param list)
    \<Rightarrow> ('r Context \<Rightarrow> 't \<Rightarrow> 'm \<Rightarrow> jsval + jsval) \<Rightarrow> (jsval \<Rightarrow> bool) \<Rightarrow> (jsval \<Rightarrow> jsval + jsval)
    \<Rightarrow> (jsval list \<Rightarrow> 'r Context \<Rightarrow> (jsval + jsval) \<times> 'r Context)
    \<Rightarrow> string \<Rightarrow> string \<Rightarrow> 'r Context \<Rightarrow> completion \<times> 'r Context" where
  "handleRoute getParams getParam isValidElement render cb controller propertyKey ctx =
     (let params = getParams controller propertyKey;
          sortedParams = sort_key index params
      in case try_block getParam isValidElement render cb sortedParams ctx of
           (Inr u, ctx') \<Rightarrow> (Resolved, ctx')
         | (Inl err, ctx') \<Rightarrow> catch_block err ctx')"

text \<open>
  What the handler finds in its \<open>i\<close>-th parameter when it is called as \<open>cb(...args)\<close>:
  \<open>args[i]\<close>, and \<open>undefined\<close> beyond the arguments passed.
\<close>

definition positional :: "jsval list \<Rightarrow> nat \<Rightarrow> jsval" where
  "positional args i = (if i < length args then args ! i else JUndefined)"

section \<open>Route assembly: \<open>configureRouters\<close>\<close>

text \<open>
  Strings are sequences of code units. \<open>path[i]\<close> is \<open>undefined\<close> (here \<open>None\<close>) outside
  the string, in particular at \<open>-1\<close>; \<open>path.substring(start, end)\<close> clamps both indices
  to the string and swaps them when \<open>start > end\<close>.
\<close>

definition char_at :: "string \<Rightarrow> int \<Rightarrow> char option" where
  "char_at s i = (if 0 \<le> i \<and> i < int (length s) then Some (s ! nat i) else None)"

definition substring :: "string \<Rightarrow> int \<Rightarrow> int \<Rightarrow> string" where
  "substring s start end' =
     (let n = int (length s);
          a = max 0 (min start n);
          b = max 0 (min end' n);
          lo = min a b;
          hi = max a b
      in take (nat (hi - lo)) (drop (nat lo) s))"

text \<open>
  The path under which an endpoint is registered:
  \<^verbatim>\<open>let path = controller.path.concat(endpoint.path)
  const last = path.length - 1
  if (path[last] === '/') path = path.substring(0, last)\<close>
\<close>

definition effective_path :: "string \<Rightarrow> string \<Rightarrow> string" where
  "effective_path controller_path endpoint_path =
     (let path = controller_path @ endpoint_path;
          last = int (length path) - 1
      in if char_at path last = Some (CHR ''/'') then substring path 0 last else path)"

text \<open>
  An endpoint of the endpoint store, and a controller as \<open>getController\<close> finds it: its
  base path and its target object, of which only the methods matter (\<open>None\<close> where the
  object has no such property). A handler gets its arguments and the context.
\<close>

type_synonym 'r handler = "jsval list \<Rightarrow> 'r Context \<Rightarrow> (jsval + jsval) \<times> 'r Context"

record endpoint =
  controller :: string
  path :: string
  "method" :: string
  propertyKey :: string

record 'r controller_registration =
  path :: string
  target :: "string \<Rightarrow> 'r handler option"

text \<open>
  A route of the Koa router: the verb it was registered under, its path, and the three
  arguments of the \<open>handleRoute\<close> call that made its middleware.
\<close>

datatype 'r route = Route string string "'r handler" string string

text \<open>
  The body of a middleware function, as far as the chain is concerned: effects on the
  context, each of which may throw (\<open>Inl\<close>, with the context as the throw left it), and
  awaited calls of \<open>next\<close>. A class of the middleware store is the body of its \<open>use\<close>.
\<close>

datatype 'r step =
    Effect "'r Context \<Rightarrow> (jsval + unit) \<times> 'r Context"
  | AwaitNext

type_synonym 'r Middleware = "'r step list"

text \<open>What \<open>server.use\<close> was given, in the order of the calls.\<close>

datatype 'r layer =
    RequestLogger
  | BodyParser "string list"
  | MiddlewareLayer "'r Middleware"
  | RouterRoutes
  | RouterAllowedMethods

datatype event =
    AppReady
  | AppStart nat
  | ConfigureMiddlewares
  | ConfigureRouter endpoint
  | ConfigureRouters

text \<open>
  The application object: the middleware of the Koa server, the routes of the router,
  the events emitted and the lines logged so far, and the port once \<open>listen\<close> was called.
\<close>

record 'r AureolinApplication =
  middleware :: "'r layer list"
  routes :: "'r route list"
  events :: "event list"
  logged :: "string list"
  listening :: "nat option"

definition use :: "'r layer \<Rightarrow> 'r AureolinApplication \<Rightarrow> 'r AureolinApplication" where
  "use fn app = app\<lparr>middleware := middleware app @ [fn]\<rparr>"

definition emit :: "event \<Rightarrow> 'r AureolinApplication \<Rightarrow> 'r AureolinApplication" where
  "emit ev app = app\<lparr>events := events app @ [ev]\<rparr>"

definition info :: "string \<Rightarrow> 'r AureolinApplication \<Rightarrow> 'r AureolinApplication" where
  "info line app = app\<lparr>logged := logged app @ [line]\<rparr>"

text \<open>\<open>new Error(msg)\<close>.\<close>

definition Error :: "string \<Rightarrow> jsval" where
  "Error msg = JObj [(''name'', JStr ''Error''), (''message'', JStr msg)]"




section \<open>The middleware chain: \<open>configureMiddlewares\<close>\<close>

definition configureMiddlewares ::
  "'r Middleware list \<Rightarrow> 'r AureolinApplication \<Rightarrow> 'r AureolinApplication" where
  "configureMiddlewares middlewareStore app =
     info ''Configured Middlewares''
       (emit ConfigureMiddlewares
          (foldl (\<lambda>a Middleware. use (MiddlewareLayer Middleware) a)
             (use (BodyParser [''json'', ''form'', ''text'']) (use RequestLogger app))
             middlewareStore))"

text \<open>
  The constructor, once the three loaders have imported the modules that fill the stores:
  \<open>configureMiddlewares\<close>, \<open>configureRouters\<close>, then \<open>app.ready\<close>. It runs in an
  asynchronous function, so a throw rejects its promise.
\<close>

definition new_application :: "'r AureolinApplication" where
  "new_application =
     \<lparr>middleware = [], routes = [], events = [], logged = [], listening = None\<rparr>"


text \<open>A port in a template literal: its decimal digits.\<close>

fun decimal :: "nat \<Rightarrow> string" where
  "decimal n =
     (if n < 10 then [char_of (48 + n)]
      else decimal (n div 10) @ [char_of (48 + n mod 10)])"

declare decimal.simps [simp del]

text \<open>\<open>start\<close>: the server listens on the port of the options.\<close>

definition start :: "nat \<Rightarrow> 'r AureolinApplication \<Rightarrow> 'r AureolinApplication" where
  "start port app =
     info (''Server started on port '' @ decimal port)
       (emit (AppStart port) (app\<lparr>listening := Some port\<rparr>))"


section \<open>One request through the middleware chain\<close>

text \<open>
  Koa hands a request to its middleware as \<open>koa-compose\<close> does: \<open>dispatch(i)\<close> calls the
  \<open>i\<close>-th function with \<open>next = dispatch(i + 1)\<close>, and rejects a second call of the same
  \<open>next\<close>. Of one request the model keeps the context, the variable of \<open>koa-compose\<close>
  that remembers the last \<open>i\<close> dispatched (\<open>called\<close>), the functions entered so far in
  the order of their calls, the lines logged and the values emitted as \<open>error\<close> events.
\<close>

record 'r exchange =
  cx :: "'r Context"
  called :: int
  entered :: "'r layer list"
  lines :: "string list"
  errors :: "jsval list"

text \<open>
  What the model takes from outside these sources: how a request prints as
  \<open>${ctx.method} ${ctx.url}\<close>, and the bodies of the middleware of \<open>koa-bodyparser\<close> and of
  the router.
\<close>

record 'r externals =
  request_line :: "'r Context \<Rightarrow> string"
  external :: "'r layer \<Rightarrow> 'r step list"

text \<open>
  The body of each function given to \<open>server.use\<close> in \<open>configureMiddlewares\<close>. The first
  logs the request and awaits \<open>next\<close>. The one made for a class of the middleware store
  runs, inside its \<open>try\<close>, \<open>await new Middleware().use(ctx, next)\<close> and then \<open>await next()\<close>.
\<close>

definition logger_info :: "string \<Rightarrow> 'r exchange \<Rightarrow> 'r exchange" where
  "logger_info line s = s\<lparr>lines := lines s @ [line]\<rparr>"

fun layer_body :: "'r externals \<Rightarrow> 'r layer \<Rightarrow> 'r step list" where
  "layer_body ext RequestLogger = [AwaitNext]"
| "layer_body ext (MiddlewareLayer Middleware) = Middleware @ [AwaitNext]"
| "layer_body ext fn = external ext fn"

text \<open>
  The \<open>catch\<close> of the function made for a class of the middleware store:
  \<^verbatim>\<open>this.emit('error', error)
  const status = E.status || 500
  ctx.status = status
  ctx.body = { error: E.message || 'Internal Server Error', status }\<close>
\<close>

definition middleware_catch :: "jsval \<Rightarrow> 'r exchange \<Rightarrow> (jsval + unit) \<times> 'r exchange" where
  "middleware_catch E s =
     (let s1 = s\<lparr>errors := errors s @ [E]\<rparr> in
      case get_prop E ''status'' of
        Inl te \<Rightarrow> (Inl te, s1)
      | Inr st \<Rightarrow>
          (let status = js_or st (JNum (Finite 500)) in
           case set_status status (cx s1) of
             Inl ae \<Rightarrow> (Inl ae, s1)
           | Inr c \<Rightarrow>
               (case get_prop E ''message'' of
                  Inl te \<Rightarrow> (Inl te, s1\<lparr>cx := c\<rparr>)
                | Inr message \<Rightarrow>
                    (Inr (),
                     s1\<lparr>cx := c
                        \<lparr>body := JObj [(''error'', js_or message (JStr ''Internal Server Error'')),
                                      (''status'', status)]\<rparr>\<rparr>))))"

fun dispatch ::
  "'r externals \<Rightarrow> nat \<Rightarrow> 'r layer list \<Rightarrow> 'r exchange \<Rightarrow> (jsval + unit) \<times> 'r exchange"
and run_steps ::
  "'r externals \<Rightarrow> nat \<Rightarrow> 'r layer list \<Rightarrow> 'r step list \<Rightarrow> 'r exchange
    \<Rightarrow> (jsval + unit) \<times> 'r exchange" where
  "dispatch ext i [] s =
     (if int i \<le> called s then (Inl (Error ''next() called multiple times''), s)
      else (Inr (), s\<lparr>called := int i\<rparr>))"
| "dispatch ext i (fn # rest) s =
     (if int i \<le> called s then (Inl (Error ''next() called multiple times''), s)
      else
        (case run_steps ext (Suc i) rest (layer_body ext fn)
                (let s1 = s\<lparr>called := int i, entered := entered s @ [fn]\<rparr> in
                 if fn = RequestLogger
                 then logger_info (''REQUEST: '' @ request_line ext (cx s1)) s1 else s1) of
           (Inl err, s2) \<Rightarrow>
             (case fn of
                MiddlewareLayer Middleware \<Rightarrow> middleware_catch err s2
              | _ \<Rightarrow> (Inl err, s2))
         | (Inr u, s2) \<Rightarrow> (Inr (), s2)))"
| "run_steps ext j rest [] s = (Inr (), s)"
| "run_steps ext j rest (Effect f # steps) s =
     (case f (cx s) of
        (Inl err, c) \<Rightarrow> (Inl err, s\<lparr>cx := c\<rparr>)
      | (Inr u, c) \<Rightarrow> run_steps ext j rest steps (s\<lparr>cx := c\<rparr>))"
| "run_steps ext j rest (AwaitNext # steps) s =
     (case dispatch ext j rest s of
        (Inl err, s') \<Rightarrow> (Inl err, s')
      | (Inr u, s') \<Rightarrow> run_steps ext j rest steps s')"

text \<open>The callback of the server: \<open>compose(this.middleware)(ctx)\<close>, with \<open>index = -1\<close>.\<close>

definition handle_request ::
  "'r externals \<Rightarrow> 'r AureolinApplication \<Rightarrow> 'r Context \<Rightarrow> (jsval + unit) \<times> 'r exchange" where
  "handle_request ext app c =
     dispatch ext 0 (middleware app)
       \<lparr>cx = c, called = - 1, entered = [], lines = [], errors = []\<rparr>"


text \<open>
  A body reaches its first \<open>await next()\<close> when no effect before it throws; a function of
  the chain proceeds when its body does.
\<close>

fun reaches_next :: "'r step list \<Rightarrow> bool" where
  "reaches_next [] = False"
| "reaches_next (AwaitNext # steps) = True"
| "reaches_next (Effect f # steps) = ((\<forall>c. fst (f c) = Inr ()) \<and> reaches_next steps)"

definition proceeds :: "'r externals \<Rightarrow> 'r layer \<Rightarrow> bool" where
  "proceeds ext fn = reaches_next (layer_body ext fn)"

text \<open>
  The chain as the specification words it: the request logger, then body parsing, then each
  registered middleware in the order of registration, each wrapping the call to the next.
  It is written for classes whose \<open>use\<close> has effects on the context and leaves the call
  of \<open>next\<close> to the function made for the class; \<open>downstream\<close> is what follows the last
  of them. Entering a function is recorded as \<open>dispatch\<close> records it.
\<close>

type_synonym 'r effect = "'r Context \<Rightarrow> (jsval + unit) \<times> 'r Context"

fun run_effects :: "'r effect list \<Rightarrow> 'r exchange \<Rightarrow> (jsval + unit) \<times> 'r exchange" where
  "run_effects [] s = (Inr (), s)"
| "run_effects (f # fs) s =
     (case f (cx s) of
        (Inl err, c) \<Rightarrow> (Inl err, s\<lparr>cx := c\<rparr>)
      | (Inr u, c) \<Rightarrow> run_effects fs (s\<lparr>cx := c\<rparr>))"

definition enter :: "nat \<Rightarrow> 'r layer \<Rightarrow> 'r exchange \<Rightarrow> 'r exchange" where
  "enter i fn s = s\<lparr>called := int i, entered := entered s @ [fn]\<rparr>"

fun registered_in_order ::
  "nat \<Rightarrow> 'r effect list list \<Rightarrow> ('r exchange \<Rightarrow> (jsval + unit) \<times> 'r exchange)
    \<Rightarrow> 'r exchange \<Rightarrow> (jsval + unit) \<times> 'r exchange" where
  "registered_in_order i [] downstream s = downstream s"
| "registered_in_order i (effects # others) downstream s =
     (case run_effects effects (enter i (MiddlewareLayer (map Effect effects)) s) of
        (Inl err, s1) \<Rightarrow> middleware_catch err s1
      | (Inr u, s1) \<Rightarrow>
          (case registered_in_order (Suc i) others downstream s1 of
             (Inl err, s2) \<Rightarrow> middleware_catch err s2
           | (Inr u', s2) \<Rightarrow> (Inr (), s2)))"

definition chain_in_order ::
  "'r externals \<Rightarrow> 'r effect \<Rightarrow> 'r effect list list \<Rightarrow> 'r layer list \<Rightarrow> 'r Context
    \<Rightarrow> (jsval + unit) \<times> 'r exchange" where
  "chain_in_order ext parse uses later c =
     (let s0 = \<lparr>cx = c, called = - 1, entered = [], lines = [], errors = []\<rparr>;
          s1 = logger_info (''REQUEST: '' @ request_line ext c) (enter 0 RequestLogger s0);
          s2 = enter 1 (BodyParser [''json'', ''form'', ''text'']) s1
      in case parse c of
           (Inl err, c') \<Rightarrow> (Inl err, s2\<lparr>cx := c'\<rparr>)
         | (Inr u, c') \<Rightarrow>
             registered_in_order 2 uses (dispatch ext (2 + length uses) later)
               (s2\<lparr>cx := c'\<rparr>))"

section \<open>Properties of request dispatch\<close>

subsection \<open>Arguments\<close>

lemma extract_args_nth:
  "extract_args getParam ctx ps = Inr args \<Longrightarrow>
     length args = length ps \<and>
     (\<forall>k < length ps. getParam ctx (type (ps ! k)) (meta (ps ! k)) = Inr (args ! k))"
proof (induction ps arbitrary: args)
  case Nil
  then show ?case by simp
next
  case (Cons p ps)
  from Cons.prems obtain v vs where
    v: "getParam ctx (type p) (meta p) = Inr v" and
    vs: "extract_args getParam ctx ps = Inr vs" and
    args: "args = v # vs"
    by (auto split: sum.splits)
  from Cons.IH [OF vs] have len: "length vs = length ps"
    and nth: "\<And>k. k < length ps \<Longrightarrow> getParam ctx (type (ps ! k)) (meta (ps ! k)) = Inr (vs ! k)"
    by simp_all
  show ?case
  proof (intro conjI allI impI)
    show "length args = length (p # ps)" using len args by simp
  next
    fix k assume "k < length (p # ps)"
    then show "getParam ctx (type ((p # ps) ! k)) (meta ((p # ps) ! k)) = Inr (args ! k)"
      using v nth args by (cases k) simp_all
  qed
qed

lemma sorted_params_contiguous:
  assumes d: "distinct (map index ps)" and s: "index ` set ps = {0..<length ps}"
  shows "map index (sort_key index ps) = [0..<length ps]"
proof -
  let ?s = "sort_key index ps"
  have "card (set (map index ?s)) = length (map index ?s)"
    using distinct_card [OF d] by simp
  then have "distinct (map index ?s)" by (rule card_distinct)
  moreover have "sorted (map index ?s)" by (rule sorted_sort_key)
  moreover have "set (map index ?s) = set [0..<length ps]" using s by simp
  ultimately show ?thesis
    by (intro sorted_distinct_set_unique) simp_all
qed

text \<open>
  With bindings for the indices 0 and 2 only, the handler finds the value bound to index 2
  in its parameter 1, and \<open>undefined\<close> in its parameter 2.
\<close>

theorem handleRoute_arguments_gap_counterexample:
  "body (snd (handleRoute
     (\<lambda>ctrl key.
        [\<lparr>index = 2, type = ''query'', meta = ''q''\<rparr>, \<lparr>index = 0, type = ''body'', meta = ''b''\<rparr>])
     (\<lambda>ctx t m. Inr (JStr t)) (\<lambda>v. False) Inr
     (\<lambda>args ctx.
        (Inr (JObj [(''0'', positional args 0), (''1'', positional args 1),
                    (''2'', positional args 2)]), ctx))
     ''C'' ''m'' \<lparr>request = (), status = JNum (Finite 404), body = JUndefined\<rparr>))
   = JObj [(''0'', JStr ''body''), (''1'', JStr ''query''), (''2'', JUndefined)]
   \<and> body (snd (handleRoute
     (\<lambda>ctrl key.
        [\<lparr>index = 2, type = ''query'', meta = ''q''\<rparr>, \<lparr>index = 0, type = ''body'', meta = ''b''\<rparr>])
     (\<lambda>ctx t m. Inr (JStr t)) (\<lambda>v. False) Inr
     (\<lambda>args ctx.
        (Inr (JObj [(''0'', positional args 0), (''1'', positional args 1),
                    (''2'', positional args 2)]), ctx))
     ''C'' ''m'' \<lparr>request = (), status = JNum (Finite 404), body = JUndefined\<rparr>))
   \<noteq> JObj [(''0'', JStr ''body''), (''1'', JUndefined), (''2'', JStr ''query'')]"
  by (simp add: handleRoute_def try_block_def after_call_def positional_def)

text \<open>
  Claim C1, as the code has it. When no extraction throws, the handler is called with one
  argument for each binding, in ascending order of \<open>index\<close> and packed from position 0:
  the \<open>k\<close>-th argument is the value extracted for the \<open>k\<close>-th binding of the sorted
  list. No position is left \<open>undefined\<close> for an index that has no binding, so a value is
  at the position its \<open>index\<close> names when the indices are exactly \<open>0, \<dots>, n - 1\<close>.
\<close>

theorem handleRoute_arguments_dense:
  assumes "extract_args getParam ctx (sort_key index (getParams ctrl key)) = Inr args"
  shows "handleRoute getParams getParam isValidElement render cb ctrl key ctx =
           (case after_call isValidElement render (cb args ctx) of
              (Inr u, ctx') \<Rightarrow> (Resolved, ctx')
            | (Inl err, ctx') \<Rightarrow> catch_block err ctx')
         \<and> length args = length (getParams ctrl key)
         \<and> sorted (map index (sort_key index (getParams ctrl key)))
         \<and> (\<forall>k < length args.
               getParam ctx (type (sort_key index (getParams ctrl key) ! k))
                 (meta (sort_key index (getParams ctrl key) ! k)) = Inr (positional args k))
         \<and> (distinct (map index (getParams ctrl key))
              \<and> index ` set (getParams ctrl key)
                  = {0..<length (getParams ctrl key)}
              \<longrightarrow> (\<forall>p \<in> set (getParams ctrl key).
                     getParam ctx (type p) (meta p) = Inr (positional args (index p))))"
proof -
  let ?ps = "getParams ctrl key"
  let ?s = "sort_key index ?ps"
  from extract_args_nth [OF assms]
  have len: "length args = length ?ps"
    and nth: "\<And>k. k < length ?ps \<Longrightarrow> getParam ctx (type (?s ! k)) (meta (?s ! k)) = Inr (args ! k)"
    by simp_all
  have call: "handleRoute getParams getParam isValidElement render cb ctrl key ctx =
           (case after_call isValidElement render (cb args ctx) of
              (Inr u, ctx') \<Rightarrow> (Resolved, ctx')
            | (Inl err, ctx') \<Rightarrow> catch_block err ctx')"
    using assms by (simp add: handleRoute_def try_block_def)
  have srt: "sorted (map index ?s)" by (rule sorted_sort_key)
  have dense: "\<forall>k < length args. getParam ctx (type (?s ! k)) (meta (?s ! k)) = Inr (positional args k)"
    using nth len by (simp add: positional_def)
  have contiguous: "\<forall>p \<in> set ?ps. getParam ctx (type p) (meta p) = Inr (positional args (index p))"
    if d: "distinct (map index ?ps)" and r: "index ` set ?ps = {0..<length ?ps}"
  proof
    fix p assume "p \<in> set ?ps"
    then have "p \<in> set ?s" by simp
    then obtain k where k: "k < length ?s" and p: "?s ! k = p"
      unfolding in_set_conv_nth by blast
    have "map index ?s ! k = [0..<length ?ps] ! k"
      using sorted_params_contiguous [OF d r] by simp
    then have "index p = k" using k p by simp
    then show "getParam ctx (type p) (meta p) = Inr (positional args (index p))"
      using nth [of k] k p len by (simp add: positional_def)
  qed
  show ?thesis using call len srt dense contiguous by blast
qed

theorem handleRoute_arguments_dense_witness:
  "handleRoute
     (\<lambda>ctrl key.
        [\<lparr>index = 1, type = ''query'', meta = ''q''\<rparr>, \<lparr>index = 0, type = ''body'', meta = ''b''\<rparr>])
     (\<lambda>ctx t m. Inr (JStr t)) (\<lambda>v. False) Inr
     (\<lambda>args ctx. (Inr (JObj [(''0'', positional args 0), (''1'', positional args 1)]), ctx))
     ''C'' ''m'' \<lparr>request = (), status = JNum (Finite 404), body = JUndefined\<rparr>
   = (Resolved,
      \<lparr>request = (), status = JNum (Finite 404),
       body = JObj [(''0'', JStr ''body''), (''1'', JStr ''query'')]\<rparr>)"
  using handleRoute_arguments_dense
    [of "\<lambda>ctx t m. Inr (JStr t)" "\<lparr>request = (), status = JNum (Finite 404), body = JUndefined\<rparr>"
        "\<lambda>ctrl key.
          [\<lparr>index = 1, type = ''query'', meta = ''q''\<rparr>, \<lparr>index = 0, type = ''body'', meta = ''b''\<rparr>]"
        "''C''" "''m''" "[JStr ''body'', JStr ''query'']" "\<lambda>v. False" Inr
        "\<lambda>args ctx. (Inr (JObj [(''0'', positional args 0), (''1'', positional args 1)]), ctx)"]
  by (simp add: after_call_def positional_def)

subsection \<open>The value returned\<close>

text \<open>A handler that returns the plain value 0: the body is not 0.\<close>

theorem handleRoute_falsy_value_counterexample:
  "body (snd (handleRoute (\<lambda>ctrl key. ([] :: (unit, unit) param list)) (\<lambda>ctx t m. Inr JUndefined)
     (\<lambda>v. False) Inr (\<lambda>args ctx. (Inr (JNum (Finite 0)), ctx)) ''C'' ''m''
     \<lparr>request = (), status = JNum (Finite 404), body = JUndefined\<rparr>))
   \<noteq> JNum (Finite 0)"
  by (simp add: handleRoute_def try_block_def after_call_def)

text \<open>
  Claim C5, as the code has it. A handler that returns a truthy value \<open>V\<close> that is not a
  renderable element leaves \<open>V\<close> itself as the body of the response.
\<close>

theorem handleRoute_truthy_value_is_body:
  assumes "extract_args getParam ctx (sort_key index (getParams ctrl key)) = Inr args"
    and "cb args ctx = (Inr V, ctx')"
    and "truthy V"
    and "\<not> isValidElement V"
  shows "handleRoute getParams getParam isValidElement render cb ctrl key ctx
           = (Resolved, ctx'\<lparr>body := V\<rparr>)
         \<and> body (snd (handleRoute getParams getParam isValidElement render cb ctrl key ctx)) = V"
  using assms by (simp add: handleRoute_def try_block_def after_call_def)

theorem handleRoute_truthy_value_is_body_witness:
  "body (snd (handleRoute (\<lambda>ctrl key. ([] :: (unit, unit) param list)) (\<lambda>ctx t m. Inr JUndefined)
     (\<lambda>v. False) Inr (\<lambda>args ctx. (Inr (JStr ''pong''), ctx)) ''C'' ''m''
     \<lparr>request = (), status = JNum (Finite 404), body = JUndefined\<rparr>))
   = JStr ''pong''"
  using handleRoute_truthy_value_is_body
    [of "\<lambda>ctx t m. Inr JUndefined"
        "\<lparr>request = (), status = JNum (Finite 404), body = JUndefined\<rparr>"
        "\<lambda>ctrl key. ([] :: (unit, unit) param list)" "''C''" "''m''" "[]"
        "\<lambda>args ctx. (Inr (JStr ''pong''), ctx)" "JStr ''pong''"
        "\<lparr>request = (), status = JNum (Finite 404), body = JUndefined\<rparr>"
        "\<lambda>v. False" Inr]
  by simp

text \<open>
  Claim C9. When the handler returns \<open>undefined\<close>, dispatch leaves the context as the
  handler left it: the body after dispatch is the body at the handler's return.
\<close>

theorem handleRoute_undefined_leaves_body:
  assumes "extract_args getParam ctx (sort_key index (getParams ctrl key)) = Inr args"
    and "cb args ctx = (Inr JUndefined, ctx')"
  shows "handleRoute getParams getParam isValidElement render cb ctrl key ctx = (Resolved, ctx')
         \<and> body (snd (handleRoute getParams getParam isValidElement render cb ctrl key ctx))
             = body ctx'"
  using assms by (simp add: handleRoute_def try_block_def after_call_def)

theorem handleRoute_undefined_leaves_body_witness:
  "body (snd (handleRoute (\<lambda>ctrl key. ([] :: (unit, unit) param list)) (\<lambda>ctx t m. Inr JUndefined)
     (\<lambda>v. False) Inr (\<lambda>args ctx. (Inr JUndefined, ctx\<lparr>body := JStr ''set by hand''\<rparr>)) ''C'' ''m''
     \<lparr>request = (), status = JNum (Finite 404), body = JUndefined\<rparr>))
   = JStr ''set by hand''"
  using handleRoute_undefined_leaves_body
    [of "\<lambda>ctx t m. Inr JUndefined"
        "\<lparr>request = (), status = JNum (Finite 404), body = JUndefined\<rparr>"
        "\<lambda>ctrl key. ([] :: (unit, unit) param list)" "''C''" "''m''" "[]"
        "\<lambda>args ctx. (Inr JUndefined, ctx\<lparr>body := JStr ''set by hand''\<rparr>)"
        "\<lparr>request = (), status = JNum (Finite 404), body = JStr ''set by hand''\<rparr>"
        "\<lambda>v. False" Inr]
  by simp

text \<open>
  Claim C10. When the handler returns a value that is defined but falsy (0, \<open>false\<close>, the
  empty string, \<open>null\<close>, and also \<open>-0\<close>, \<open>NaN\<close> and \<open>0n\<close>), dispatch does not assign
  the body: the context stays as the handler left it, exactly as for a handler that
  does the same and returns \<open>undefined\<close>.
\<close>

theorem handleRoute_falsy_leaves_body:
  assumes "extract_args getParam ctx (sort_key index (getParams ctrl key)) = Inr args"
    and "cb args ctx = (Inr res, ctx')"
    and "res \<in> {JNum (Finite 0), JBool False, JStr '''', JNull, JNum NegZero, JNum NaN, JBigInt 0}"
    and "cb0 args ctx = (Inr JUndefined, ctx')"
  shows "handleRoute getParams getParam isValidElement render cb ctrl key ctx = (Resolved, ctx')
         \<and> body (snd (handleRoute getParams getParam isValidElement render cb ctrl key ctx))
             = body ctx'
         \<and> handleRoute getParams getParam isValidElement render cb ctrl key ctx
             = handleRoute getParams getParam isValidElement render cb0 ctrl key ctx"
  using assms by (auto simp add: handleRoute_def try_block_def after_call_def)

theorem handleRoute_falsy_leaves_body_witness:
  "handleRoute (\<lambda>ctrl key. ([] :: (unit, unit) param list)) (\<lambda>ctx t m. Inr JUndefined)
     (\<lambda>v. False) Inr (\<lambda>args ctx. (Inr (JNum (Finite 0)), ctx)) ''C'' ''m''
     \<lparr>request = (), status = JNum (Finite 404), body = JStr ''before''\<rparr>
   = (Resolved, \<lparr>request = (), status = JNum (Finite 404), body = JStr ''before''\<rparr>)"
  using handleRoute_falsy_leaves_body
    [of "\<lambda>ctx t m. Inr JUndefined"
        "\<lparr>request = (), status = JNum (Finite 404), body = JStr ''before''\<rparr>"
        "\<lambda>ctrl key. ([] :: (unit, unit) param list)" "''C''" "''m''" "[]"
        "\<lambda>args ctx. (Inr (JNum (Finite 0)), ctx)" "JNum (Finite 0)"
        "\<lparr>request = (), status = JNum (Finite 404), body = JStr ''before''\<rparr>"
        "\<lambda>args ctx. (Inr JUndefined, ctx)" "\<lambda>v. False" Inr]
  by simp

subsection \<open>The value thrown\<close>

text \<open>
  A thrown object with no \<open>status\<close> and no \<open>message\<close>: the message of the body is
  \<open>Internal Server Error\<close>, not the empty string.
\<close>

theorem handleRoute_error_message_counterexample:
  "handleRoute (\<lambda>ctrl key. ([] :: (unit, unit) param list)) (\<lambda>ctx t m. Inr JUndefined)
     (\<lambda>v. False) Inr (\<lambda>args ctx. (Inl (JObj []), ctx)) ''C'' ''m''
     \<lparr>request = (), status = JNum (Finite 404), body = JUndefined\<rparr>
   = (Resolved,
      \<lparr>request = (), status = JNum (Finite 500),
       body = JObj [(''status'', JNum (Finite 500)),
                    (''message'', JStr ''Internal Server Error'')]\<rparr>)
   \<and> handleRoute (\<lambda>ctrl key. ([] :: (unit, unit) param list)) (\<lambda>ctx t m. Inr JUndefined)
     (\<lambda>v. False) Inr (\<lambda>args ctx. (Inl (JObj []), ctx)) ''C'' ''m''
     \<lparr>request = (), status = JNum (Finite 404), body = JUndefined\<rparr>
   \<noteq> (Resolved,
      \<lparr>request = (), status = JNum (Finite 500),
       body = JObj [(''status'', JNum (Finite 500)), (''message'', JStr '''')]\<rparr>)"
  by (simp add: handleRoute_def try_block_def after_call_def catch_block_def set_status_def valid_status_def Let_def js_or_def
      strict_equals_num_def)

text \<open>
  Claim C3, as the code has it. When the handler throws a value \<open>E\<close> other than \<open>null\<close>
  and \<open>undefined\<close>, whose \<open>status\<close> is \<open>undefined\<close> or an integer from 100 to 999 (the
  codes the status setter of the context accepts), the status of the response becomes
  \<open>E.status\<close>, or 500 when that is \<open>undefined\<close>. The body becomes \<open>E.data\<close> when that is
  truthy; otherwise it becomes \<open>{status, message}\<close>, where the message is \<open>E.message\<close>
  when that is truthy, else \<open>Internal Server Error\<close> when the status is 500, and the
  empty string for any other status.
\<close>

theorem handleRoute_error_normalization:
  assumes "extract_args getParam ctx (sort_key index (getParams ctrl key)) = Inr args"
    and "cb args ctx = (Inl E, ctx')"
    and "E \<noteq> JUndefined" and "E \<noteq> JNull"
    and "get_prop E ''status'' = Inr s"
    and "s = JUndefined \<or> (\<exists>n::int. s = JNum (Finite (of_int n)) \<and> 100 \<le> n \<and> n \<le> 999)"
  shows "\<exists>d m.
           get_prop E ''data'' = Inr d \<and> get_prop E ''message'' = Inr m
           \<and> handleRoute getParams getParam isValidElement render cb ctrl key ctx =
               (Resolved,
                ctx'\<lparr>status := (if s = JUndefined then JNum (Finite 500) else s),
                     body :=
                       (if truthy d then d
                        else JObj
                          [(''status'', if s = JUndefined then JNum (Finite 500) else s),
                           (''message'',
                            if truthy m then m
                            else if s = JUndefined \<or> s = JNum (Finite 500)
                                 then JStr ''Internal Server Error''
                                 else JStr '''')])\<rparr>)"
proof -
  from assms(3,4) obtain d m where
    p: "get_prop E ''data'' = Inr d" "get_prop E ''message'' = Inr m"
    by (cases E) simp_all
  let ?st = "if s = JUndefined then JNum (Finite 500) else s"
  have v: "valid_status ?st"
    using assms(6) by (auto simp: valid_status_def)
  have "handleRoute getParams getParam isValidElement render cb ctrl key ctx = catch_block E ctx'"
    using assms(1,2) by (simp add: handleRoute_def try_block_def after_call_def)
  then show ?thesis
    using p assms(5) v
    by (simp add: catch_block_def set_status_def Let_def js_or_def strict_equals_num_def)
qed

theorem handleRoute_error_normalization_witness:
  "handleRoute (\<lambda>ctrl key. ([] :: (unit, unit) param list)) (\<lambda>ctx t m. Inr JUndefined)
     (\<lambda>v. False) Inr
     (\<lambda>args ctx. (Inl (JObj [(''status'', JNum (Finite 404)), (''message'', JStr ''not found'')]), ctx))
     ''C'' ''m'' \<lparr>request = (), status = JNum (Finite 200), body = JUndefined\<rparr>
   = (Resolved,
      \<lparr>request = (), status = JNum (Finite 404),
       body = JObj [(''status'', JNum (Finite 404)), (''message'', JStr ''not found'')]\<rparr>)"
proof -
  have n: "\<exists>n::int. JNum (Finite 404) = JNum (Finite (of_int n)) \<and> 100 \<le> n \<and> n \<le> 999"
    by (rule exI [of _ 404]) simp
  show ?thesis
    using n handleRoute_error_normalization
      [of "\<lambda>ctx t m. Inr JUndefined"
        "\<lparr>request = (), status = JNum (Finite 200), body = JUndefined\<rparr>"
        "\<lambda>ctrl key. ([] :: (unit, unit) param list)" "''C''" "''m''" "[]"
        "\<lambda>args ctx. (Inl (JObj [(''status'', JNum (Finite 404)), (''message'', JStr ''not found'')]), ctx)"
        "JObj [(''status'', JNum (Finite 404)), (''message'', JStr ''not found'')]"
        "\<lparr>request = (), status = JNum (Finite 200), body = JUndefined\<rparr>"
        "JNum (Finite 404)" "\<lambda>v. False" Inr]
    by auto
qed

text \<open>
  A thrown status that is no integer from 100 to 999: the assignment of the status throws
  inside the \<open>catch\<close> block, and nothing is assigned.
\<close>

lemma handleRoute_invalid_status_rejects:
  "handleRoute (\<lambda>ctrl key. ([] :: (unit, unit) param list)) (\<lambda>ctx t m. Inr JUndefined)
     (\<lambda>v. False) Inr
     (\<lambda>args ctx. (Inl (JObj [(''status'', JStr ''404'')]), ctx))
     ''C'' ''m'' \<lparr>request = (), status = JNum (Finite 200), body = JUndefined\<rparr>
   = (Rejected (AssertionError ''invalid status code''),
      \<lparr>request = (), status = JNum (Finite 200), body = JUndefined\<rparr>)
   \<and> handleRoute (\<lambda>ctrl key. ([] :: (unit, unit) param list)) (\<lambda>ctx t m. Inr JUndefined)
     (\<lambda>v. False) Inr
     (\<lambda>args ctx. (Inl (JObj [(''status'', JNum (Finite 1000))]), ctx))
     ''C'' ''m'' \<lparr>request = (), status = JNum (Finite 200), body = JUndefined\<rparr>
   = (Rejected (AssertionError ''invalid status code''),
      \<lparr>request = (), status = JNum (Finite 200), body = JUndefined\<rparr>)"
  by (simp add: handleRoute_def try_block_def after_call_def catch_block_def set_status_def
      valid_status_def)

text \<open>
  Claim C4 at the thrown values \<open>undefined\<close> and \<open>null\<close>: the destructuring of the
  \<open>catch\<close> block throws a \<open>TypeError\<close>, the promise of the middleware rejects, and
  neither the status nor the body of the response is assigned.
\<close>

theorem handleRoute_throw_undefined_rejects:
  "handleRoute (\<lambda>ctrl key. ([] :: (unit, unit) param list)) (\<lambda>ctx t m. Inr JUndefined)
     (\<lambda>v. False) Inr (\<lambda>args ctx. (Inl JUndefined, ctx)) ''C'' ''m''
     \<lparr>request = (), status = JNum (Finite 404), body = JUndefined\<rparr>
   = (Rejected (TypeError ''Cannot read properties of undefined''),
      \<lparr>request = (), status = JNum (Finite 404), body = JUndefined\<rparr>)
   \<and> handleRoute (\<lambda>ctrl key. ([] :: (unit, unit) param list)) (\<lambda>ctx t m. Inr JUndefined)
     (\<lambda>v. False) Inr (\<lambda>args ctx. (Inl JNull, ctx)) ''C'' ''m''
     \<lparr>request = (), status = JNum (Finite 404), body = JUndefined\<rparr>
   = (Rejected (TypeError ''Cannot read properties of null''),
      \<lparr>request = (), status = JNum (Finite 404), body = JUndefined\<rparr>)"
  by (simp add: handleRoute_def try_block_def after_call_def catch_block_def)

text \<open>
  Claim C6. A handler that throws a plain error (an object with a message, and neither a
  \<open>status\<close> nor a \<open>data\<close> property) gets the status 500 and the body
  \<open>{status: 500, message}\<close>, where the message is \<open>Internal Server Error\<close> when the
  error's message is empty and the error's message otherwise.
\<close>

theorem handleRoute_plain_error:
  assumes "extract_args getParam ctx (sort_key index (getParams ctrl key)) = Inr args"
    and "cb args ctx = (Inl (JObj fs), ctx')"
    and "map_of fs ''status'' = None"
    and "map_of fs ''data'' = None"
    and "map_of fs ''message'' = Some (JStr m)"
  shows "handleRoute getParams getParam isValidElement render cb ctrl key ctx =
           (Resolved,
            ctx'\<lparr>status := JNum (Finite 500),
                 body := JObj [(''status'', JNum (Finite 500)),
                               (''message'',
                                JStr (if m = [] then ''Internal Server Error'' else m))]\<rparr>)"
  using assms
  by (simp add: handleRoute_def try_block_def after_call_def catch_block_def set_status_def valid_status_def Let_def js_or_def
      strict_equals_num_def)

theorem handleRoute_plain_error_witness:
  "handleRoute (\<lambda>ctrl key. ([] :: (unit, unit) param list)) (\<lambda>ctx t m. Inr JUndefined)
     (\<lambda>v. False) Inr
     (\<lambda>args ctx. (Inl (JObj [(''name'', JStr ''Error''), (''message'', JStr '''')]), ctx))
     ''C'' ''m'' \<lparr>request = (), status = JNum (Finite 200), body = JUndefined\<rparr>
   = (Resolved,
      \<lparr>request = (), status = JNum (Finite 500),
       body = JObj [(''status'', JNum (Finite 500)),
                    (''message'', JStr ''Internal Server Error'')]\<rparr>)
   \<and> handleRoute (\<lambda>ctrl key. ([] :: (unit, unit) param list)) (\<lambda>ctx t m. Inr JUndefined)
     (\<lambda>v. False) Inr
     (\<lambda>args ctx. (Inl (JObj [(''name'', JStr ''Error''), (''message'', JStr ''boom'')]), ctx))
     ''C'' ''m'' \<lparr>request = (), status = JNum (Finite 200), body = JUndefined\<rparr>
   = (Resolved,
      \<lparr>request = (), status = JNum (Finite 500),
       body = JObj [(''status'', JNum (Finite 500)), (''message'', JStr ''boom'')]\<rparr>)"
  using handleRoute_plain_error
    [of "\<lambda>ctx t m. Inr JUndefined"
        "\<lparr>request = (), status = JNum (Finite 200), body = JUndefined\<rparr>"
        "\<lambda>ctrl key. ([] :: (unit, unit) param list)" "''C''" "''m''" "[]"
        "\<lambda>args ctx. (Inl (JObj [(''name'', JStr ''Error''), (''message'', JStr '''')]), ctx)"
        "[(''name'', JStr ''Error''), (''message'', JStr '''')]"
        "\<lparr>request = (), status = JNum (Finite 200), body = JUndefined\<rparr>"
        "''''" "\<lambda>v. False" Inr]
    handleRoute_plain_error
    [of "\<lambda>ctx t m. Inr JUndefined"
        "\<lparr>request = (), status = JNum (Finite 200), body = JUndefined\<rparr>"
        "\<lambda>ctrl key. ([] :: (unit, unit) param list)" "''C''" "''m''" "[]"
        "\<lambda>args ctx. (Inl (JObj [(''name'', JStr ''Error''), (''message'', JStr ''boom'')]), ctx)"
        "[(''name'', JStr ''Error''), (''message'', JStr ''boom'')]"
        "\<lparr>request = (), status = JNum (Finite 200), body = JUndefined\<rparr>"
        "''boom''" "\<lambda>v. False" Inr]
  by simp

section \<open>Properties of route assembly\<close>

subsection \<open>The effective path\<close>

lemma char_at_last:
  "char_at p (int (length p) - 1) = (if p = [] then None else Some (last p))"
  by (cases p rule: rev_cases) (simp_all add: char_at_def nth_append)

lemma substring_butlast:
  "substring p 0 (int (length p) - 1) = butlast p"
  by (cases p rule: rev_cases) (simp_all add: substring_def Let_def)

text \<open>
  The base path \<open>/\<close> with an empty sub-path gives the empty path, not \<open>/\<close>; and
  \<open>/a/\<close> with \<open>/\<close> gives \<open>/a/\<close>, which ends with a separator.
\<close>

theorem effective_path_root_counterexample:
  "effective_path ''/'' '''' = '''' \<and> effective_path ''/'' '''' \<noteq> ''/''
   \<and> effective_path ''/a/'' ''/'' = ''/a/''"
  by (simp add: effective_path_def char_at_def substring_def Let_def)

text \<open>
  Claim C2, as the code has it. The effective path is the base path followed by the
  sub-path, without its last character when that is a separator, whatever the length of
  the concatenation, and unchanged otherwise. It still ends with a separator exactly when
  the concatenation ends with two of them.
\<close>

theorem effective_path_strips_one_separator:
  "effective_path basePath subPath =
     (if basePath @ subPath \<noteq> [] \<and> last (basePath @ subPath) = CHR ''/''
      then butlast (basePath @ subPath) else basePath @ subPath)
   \<and> ((effective_path basePath subPath \<noteq> []
        \<and> last (effective_path basePath subPath) = CHR ''/'')
       = (\<exists>r. basePath @ subPath = r @ ''//''))"
proof -
  let ?p = "basePath @ subPath"
  have eq: "effective_path basePath subPath =
     (if ?p \<noteq> [] \<and> last ?p = CHR ''/'' then butlast ?p else ?p)"
    unfolding effective_path_def Let_def char_at_last substring_butlast
    by (cases "?p = []") auto
  have ends: "(effective_path basePath subPath \<noteq> []
        \<and> last (effective_path basePath subPath) = CHR ''/'')
       = (\<exists>r. ?p = r @ ''//'')"
  proof (cases ?p rule: rev_cases)
    case Nil
    then show ?thesis using eq by simp
  next
    case (snoc q c)
    show ?thesis
    proof (cases "c = CHR ''/''")
      case True
      then have e: "effective_path basePath subPath = q" using eq snoc by simp
      show ?thesis
      proof (cases q rule: rev_cases)
        case Nil
        then show ?thesis using e snoc True by simp
      next
        case (snoc q' c')
        then show ?thesis using e \<open>?p = q @ [c]\<close> True by auto
      qed
    next
      case False
      then have e: "effective_path basePath subPath = ?p" using eq snoc by simp
      then show ?thesis using snoc False by auto
    qed
  qed
  show ?thesis using eq ends by blast
qed

subsection \<open>A controller that was never registered\<close>





lemma foldl_use:
  "foldl (\<lambda>a Middleware. use (MiddlewareLayer Middleware) a) app store
     = app\<lparr>middleware := middleware app @ map MiddlewareLayer store\<rparr>"
  by (induction store arbitrary: app) (simp_all add: use_def)

lemma configureMiddlewares_stack:
  "middleware (configureMiddlewares store app)
     = middleware app @ RequestLogger # BodyParser [''json'', ''form'', ''text'']
         # map MiddlewareLayer store"
  unfolding configureMiddlewares_def foldl_use by (simp add: info_def emit_def use_def)







section \<open>Properties of the middleware chain\<close>

lemma middleware_catch_frame:
  "entered (snd (middleware_catch E s)) = entered s \<and> called (snd (middleware_catch E s)) = called s"
  by (simp add: middleware_catch_def Let_def split: sum.splits)

lemma dispatch_order:
  "(if called s < int i
    then (\<exists>m \<le> length stack.
            entered (snd (dispatch ext i stack s)) = entered s @ take m stack)
         \<and> int i \<le> called (snd (dispatch ext i stack s))
    else snd (dispatch ext i stack s) = s)"
  and run_steps_order:
  "called s \<le> called (snd (run_steps ext j rest steps s))
   \<and> (if called s < int j
      then \<exists>m \<le> length rest.
             entered (snd (run_steps ext j rest steps s)) = entered s @ take m rest
      else entered (snd (run_steps ext j rest steps s)) = entered s)"
proof (induction ext i stack s and ext j rest steps s rule: dispatch_run_steps.induct)
  case (1 ext i s)
  show ?case by simp
next
  case (2 ext i fn rest s)
  show ?case
  proof (cases "called s < int i")
    case False
    then show ?thesis by simp
  next
    case True
    let ?s1 = "(let s1 = s\<lparr>called := int i, entered := entered s @ [fn]\<rparr> in
                 if fn = RequestLogger
                 then logger_info (''REQUEST: '' @ request_line ext (cx s1)) s1 else s1)"
    let ?r = "run_steps ext (Suc i) rest (layer_body ext fn) ?s1"
    have s1: "called ?s1 = int i" "entered ?s1 = entered s @ [fn]"
      by (simp_all add: Let_def logger_info_def)
    from True have ng: "\<not> int i \<le> called s" by simp
    from 2 [OF ng] s1
    obtain m where m: "m \<le> length rest" "entered (snd ?r) = entered s @ [fn] @ take m rest"
      and c: "int i \<le> called (snd ?r)"
      by auto
    have res: "entered (snd (dispatch ext i (fn # rest) s)) = entered (snd ?r)
               \<and> called (snd (dispatch ext i (fn # rest) s)) = called (snd ?r)"
      using ng by (cases ?r; cases "fst ?r"; cases fn) (auto simp: middleware_catch_frame)
    have "entered (snd (dispatch ext i (fn # rest) s)) = entered s @ take (Suc m) (fn # rest)"
      using res m by simp
    moreover have "Suc m \<le> length (fn # rest)" using m by simp
    ultimately have "\<exists>m \<le> length (fn # rest).
        entered (snd (dispatch ext i (fn # rest) s)) = entered s @ take m (fn # rest)"
      by blast
    then show ?thesis using True res c by simp
  qed
next
  case (3 ext j rest s)
  show ?case by auto
next
  case (4 ext j rest f steps s)
  obtain x c where f: "f (cx s) = (x, c)" by (cases "f (cx s)")
  show ?case
  proof (cases x)
    case (Inl err)
    then show ?thesis using f by auto
  next
    case (Inr u)
    from 4 [OF f [symmetric] Inr] show ?thesis using f Inr by (auto split: if_splits)
  qed
next
  case (5 ext j rest steps s)
  obtain x s' where d: "dispatch ext j rest s = (x, s')" by (cases "dispatch ext j rest s")
  show ?case
  proof (cases "called s < int j")
    case False
    then have "s' = s" using "5.IH"(1) d by simp
    moreover have "x = Inl (Error ''next() called multiple times'')"
      using False d by (cases rest) (auto)
    ultimately show ?thesis using d False by simp
  next
    case True
    from "5.IH"(1) True d obtain m where
      m: "m \<le> length rest" "entered s' = entered s @ take m rest" and c: "int j \<le> called s'"
      by auto
    show ?thesis
    proof (cases x)
      case (Inl err)
      then show ?thesis using d True m c by auto
    next
      case (Inr u)
      from "5.IH"(2) [OF d [symmetric] Inr] c
      have "called s' \<le> called (snd (run_steps ext j rest steps s'))"
        and "entered (snd (run_steps ext j rest steps s')) = entered s'"
        by auto
      then show ?thesis using d Inr True m c by auto
    qed
  qed
qed

lemma dispatch_complete:
  "called s < int i \<Longrightarrow> (\<forall>fn \<in> set stack. proceeds ext fn) \<Longrightarrow>
     entered (snd (dispatch ext i stack s)) = entered s @ stack"
  and run_steps_complete:
  "called s < int j \<Longrightarrow> (\<forall>fn \<in> set rest. proceeds ext fn) \<Longrightarrow> reaches_next steps \<Longrightarrow>
     entered (snd (run_steps ext j rest steps s)) = entered s @ rest"
proof (induction ext i stack s and ext j rest steps s rule: dispatch_run_steps.induct)
  case (1 ext i s)
  then show ?case by simp
next
  case (2 ext i fn rest s)
  let ?s1 = "(let s1 = s\<lparr>called := int i, entered := entered s @ [fn]\<rparr> in
               if fn = RequestLogger
               then logger_info (''REQUEST: '' @ request_line ext (cx s1)) s1 else s1)"
  let ?r = "run_steps ext (Suc i) rest (layer_body ext fn) ?s1"
  have s1: "called ?s1 = int i" "entered ?s1 = entered s @ [fn]"
    by (simp_all add: Let_def logger_info_def)
  from "2.prems" have ng: "\<not> int i \<le> called s" by simp
  have "entered (snd ?r) = entered ?s1 @ rest"
  proof (rule "2.IH" [OF ng])
    show "called ?s1 < int (Suc i)" using s1 by simp
    show "\<forall>fn \<in> set rest. proceeds ext fn" using "2.prems" by simp
    show "reaches_next (layer_body ext fn)" using "2.prems" by (simp add: proceeds_def)
  qed
  moreover have "entered (snd (dispatch ext i (fn # rest) s)) = entered (snd ?r)"
    using ng by (cases ?r; cases "fst ?r"; cases fn) (auto simp: middleware_catch_frame)
  ultimately show ?case using s1 by simp
next
  case (3 ext j rest s)
  then show ?case by simp
next
  case (4 ext j rest f steps s)
  obtain x c where f: "f (cx s) = (x, c)" by (cases "f (cx s)")
  from "4.prems" have q: "fst (f (cx s)) = Inr ()" and r: "reaches_next steps" by simp_all
  from q f have x: "x = Inr ()" by simp
  have "entered (snd (run_steps ext j rest steps (s\<lparr>cx := c\<rparr>))) = entered (s\<lparr>cx := c\<rparr>) @ rest"
    by (rule "4.IH" [OF f [symmetric] x]) (use "4.prems" r in simp_all)
  then show ?case using f x by simp
next
  case (5 ext j rest steps s)
  obtain x s' where d: "dispatch ext j rest s = (x, s')" by (cases "dispatch ext j rest s")
  have e: "entered s' = entered s @ rest"
    using "5.IH"(1) [OF "5.prems"(1) "5.prems"(2)] d by simp
  have c: "int j \<le> called s'"
    using dispatch_order [of s j rest ext] "5.prems"(1) d by simp
  show ?case
  proof (cases x)
    case (Inl err)
    then show ?thesis using d e by simp
  next
    case (Inr u)
    have "entered (snd (run_steps ext j rest steps s')) = entered s'"
      using run_steps_order [of s' ext j rest steps] c by simp
    then show ?thesis using d Inr e by simp
  qed
qed

lemma run_steps_effects:
  "run_steps ext j rest (map Effect fs @ steps) s =
     (case run_effects fs s of
        (Inl err, s') \<Rightarrow> (Inl err, s')
      | (Inr u, s') \<Rightarrow> run_steps ext j rest steps s')"
  by (induction fs arbitrary: s) (auto split: prod.splits sum.splits)

lemma run_steps_next:
  "run_steps ext j rest [AwaitNext] s =
     (case dispatch ext j rest s of
        (Inl err, s') \<Rightarrow> (Inl err, s')
      | (Inr u, s') \<Rightarrow> (Inr (), s'))"
  by (auto split: prod.splits sum.splits)

lemma run_effects_frame:
  "called (snd (run_effects fs s)) = called s
   \<and> entered (snd (run_effects fs s)) = entered s
   \<and> lines (snd (run_effects fs s)) = lines s
   \<and> errors (snd (run_effects fs s)) = errors s"
  by (induction fs arbitrary: s) (auto split: prod.splits sum.splits)

lemma dispatch_registered:
  "called s < int i \<Longrightarrow>
     dispatch ext i (map (\<lambda>fs. MiddlewareLayer (map Effect fs)) uses @ later) s
       = registered_in_order i uses (dispatch ext (i + length uses) later) s"
proof (induction uses arbitrary: i s)
  case Nil
  then show ?case by simp
next
  case (Cons fs uses)
  let ?fn = "MiddlewareLayer (map Effect fs)"
  let ?rest = "map (\<lambda>fs. MiddlewareLayer (map Effect fs)) uses @ later"
  let ?s1 = "enter i ?fn s"
  obtain r s2 where e: "run_effects fs ?s1 = (r, s2)" by (cases "run_effects fs ?s1")
  have c2: "called s2 = int i"
    using run_effects_frame [of fs ?s1] e by (simp add: enter_def)
  have next_eq: "dispatch ext (Suc i) ?rest s2
        = registered_in_order (Suc i) uses (dispatch ext (i + length (fs # uses)) later) s2"
    using Cons.IH [of s2 "Suc i"] c2 by simp
  have "dispatch ext i (?fn # ?rest) s =
      (case run_steps ext (Suc i) ?rest (map Effect fs @ [AwaitNext]) ?s1 of
         (Inl err, s') \<Rightarrow> middleware_catch err s'
       | (Inr u, s') \<Rightarrow> (Inr (), s'))"
    using Cons.prems by (auto simp add: enter_def Let_def split: prod.splits sum.splits)
  also have "\<dots> = registered_in_order i (fs # uses) (dispatch ext (i + length (fs # uses)) later) s"
    unfolding run_steps_effects run_steps_next
    using e next_eq by (cases r) (auto split: prod.splits sum.splits)
  finally show ?case by simp
qed

lemma handle_request_in_order:
  assumes bp: "external ext (BodyParser [''json'', ''form'', ''text'']) = [Effect parse, AwaitNext]"
    and st: "middleware app = RequestLogger # BodyParser [''json'', ''form'', ''text'']
               # map (\<lambda>fs. MiddlewareLayer (map Effect fs)) uses @ later"
  shows "handle_request ext app c = chain_in_order ext parse uses later c"
proof -
  let ?bp = "BodyParser [''json'', ''form'', ''text'']"
  let ?ws = "map (\<lambda>fs. MiddlewareLayer (map Effect fs)) uses @ later"
  let ?s0 = "\<lparr>cx = c, called = - 1, entered = [], lines = [], errors = []\<rparr>"
  let ?s1 = "logger_info (''REQUEST: '' @ request_line ext c) (enter 0 RequestLogger ?s0)"
  let ?s2 = "enter 1 ?bp ?s1"
  obtain r c' where p: "parse c = (r, c')" by (cases "parse c")
  have d2: "dispatch ext 2 ?ws (?s2\<lparr>cx := c'\<rparr>)
        = registered_in_order 2 uses (dispatch ext (2 + length uses) later) (?s2\<lparr>cx := c'\<rparr>)"
    by (rule dispatch_registered) (simp add: enter_def logger_info_def)
  have step_bp: "dispatch ext 1 (?bp # ?ws) ?s1 =
      (case parse c of
         (Inl err, c') \<Rightarrow> (Inl err, ?s2\<lparr>cx := c'\<rparr>)
       | (Inr u, c') \<Rightarrow> dispatch ext 2 ?ws (?s2\<lparr>cx := c'\<rparr>))"
    using bp
    by (auto simp add: enter_def logger_info_def Let_def numeral_2_eq_2
        split: prod.splits sum.splits)
  have "handle_request ext app c = dispatch ext 0 (RequestLogger # ?bp # ?ws) ?s0"
    by (simp add: handle_request_def st)
  also have "\<dots> = dispatch ext 1 (?bp # ?ws) ?s1"
    by (auto simp add: enter_def Let_def split: prod.splits sum.splits)
  also have "\<dots> = chain_in_order ext parse uses later c"
    unfolding step_bp chain_in_order_def Let_def
    using d2 p by (cases r) simp_all
  finally show ?thesis .
qed

lemma run_effects_quiet:
  "\<forall>f \<in> set fs. \<forall>c. fst (f c) = Inr () \<Longrightarrow>
     run_effects fs s = (Inr (), s\<lparr>cx := foldl (\<lambda>c f. snd (f c)) (cx s) fs\<rparr>)"
proof (induction fs arbitrary: s)
  case Nil
  then show ?case by simp
next
  case (Cons f fs)
  from Cons.prems have "fst (f (cx s)) = Inr ()" by simp
  then obtain c' where f: "f (cx s) = (Inr (), c')" by (cases "f (cx s)") simp
  have "run_effects (f # fs) s = run_effects fs (s\<lparr>cx := c'\<rparr>)"
    using f by simp
  also have "\<dots> = (Inr (), s\<lparr>cx := foldl (\<lambda>c f. snd (f c)) (cx s) (f # fs)\<rparr>)"
    using Cons.IH [of "s\<lparr>cx := c'\<rparr>"] Cons.prems f by simp
  finally show ?case .
qed

lemma registered_quiet:
  "called s < int i \<Longrightarrow> \<forall>f \<in> set (concat uses). \<forall>c. fst (f c) = Inr () \<Longrightarrow>
     registered_in_order i uses (dispatch ext (i + length uses) []) s
       = (Inr (),
          s\<lparr>cx := foldl (\<lambda>c f. snd (f c)) (cx s) (concat uses),
            called := int (i + length uses),
            entered := entered s @ map (\<lambda>fs. MiddlewareLayer (map Effect fs)) uses\<rparr>)"
proof (induction uses arbitrary: i s)
  case Nil
  then show ?case by simp
next
  case (Cons fs uses)
  let ?s1 = "enter i (MiddlewareLayer (map Effect fs)) s"
  let ?s2 = "?s1\<lparr>cx := foldl (\<lambda>c f. snd (f c)) (cx ?s1) fs\<rparr>"
  have q: "\<forall>f \<in> set fs. \<forall>c. fst (f c) = Inr ()" using Cons.prems(2) by simp
  have e: "run_effects fs ?s1 = (Inr (), ?s2)" by (rule run_effects_quiet [OF q])
  have "registered_in_order (Suc i) uses (dispatch ext (Suc i + length uses) []) ?s2
      = (Inr (),
          ?s2\<lparr>cx := foldl (\<lambda>c f. snd (f c)) (cx ?s2) (concat uses),
            called := int (Suc i + length uses),
            entered := entered ?s2 @ map (\<lambda>fs. MiddlewareLayer (map Effect fs)) uses\<rparr>)"
    by (rule Cons.IH) (use Cons.prems in \<open>simp_all add: enter_def\<close>)
  then show ?case using e by (simp add: enter_def del: dispatch.simps)
qed

lemma new_application_stack:
  "middleware (configureMiddlewares store new_application)
     = RequestLogger # BodyParser [''json'', ''form'', ''text''] # map MiddlewareLayer store"
  using configureMiddlewares_stack [of store new_application] by (simp add: new_application_def)

lemma handle_request_configured:
  assumes bp: "external ext (BodyParser [''json'', ''form'', ''text'']) = [Effect parse, AwaitNext]"
    and st: "middleware app
               = middleware (configureMiddlewares (map (map Effect) uses) new_application) @ later"
  shows "handle_request ext app c = chain_in_order ext parse uses later c"
proof (rule handle_request_in_order [OF bp])
  show "middleware app = RequestLogger # BodyParser [''json'', ''form'', ''text'']
               # map (\<lambda>fs. MiddlewareLayer (map Effect fs)) uses @ later"
    unfolding st new_application_stack by (simp add: comp_def)
qed

lemma handle_request_quiet:
  assumes bp: "external ext (BodyParser [''json'', ''form'', ''text'']) = [Effect parse, AwaitNext]"
    and q: "\<forall>f \<in> set (parse # concat uses). \<forall>c'. fst (f c') = Inr ()"
  shows "handle_request ext (configureMiddlewares (map (map Effect) uses) new_application) c
           = (Inr (),
              \<lparr>cx = foldl (\<lambda>c f. snd (f c)) c (parse # concat uses),
               called = int (2 + length uses),
               entered = RequestLogger # BodyParser [''json'', ''form'', ''text'']
                           # map (\<lambda>fs. MiddlewareLayer (map Effect fs)) uses,
               lines = [''REQUEST: '' @ request_line ext c],
               errors = []\<rparr>)"
proof -
  let ?bp = "BodyParser [''json'', ''form'', ''text'']"
  let ?s0 = "\<lparr>cx = c, called = - 1, entered = [], lines = [], errors = []\<rparr>"
  from q have "fst (parse c) = Inr ()" by simp
  then obtain c1 where p: "parse c = (Inr (), c1)" by (cases "parse c") simp
  have r: "handle_request ext (configureMiddlewares (map (map Effect) uses) new_application) c
        = chain_in_order ext parse uses [] c"
    by (rule handle_request_configured [OF bp]) simp
  let ?s2 = "(enter 1 ?bp (logger_info (''REQUEST: '' @ request_line ext c)
                (enter 0 RequestLogger ?s0)))\<lparr>cx := c1\<rparr>"
  have c2: "called ?s2 < int 2" by (simp add: enter_def logger_info_def)
  have q2: "\<forall>f \<in> set (concat uses). \<forall>c. fst (f c) = Inr ()" using q by simp
  have reg: "registered_in_order 2 uses (dispatch ext (2 + length uses) []) ?s2
     = (Inr (),
        ?s2\<lparr>cx := foldl (\<lambda>c f. snd (f c)) (cx ?s2) (concat uses),
          called := int (2 + length uses),
          entered := entered ?s2 @ map (\<lambda>fs. MiddlewareLayer (map Effect fs)) uses\<rparr>)"
    by (rule registered_quiet [OF c2 q2])
  have "chain_in_order ext parse uses [] c
      = registered_in_order 2 uses (dispatch ext (2 + length uses) []) ?s2"
    by (simp add: chain_in_order_def Let_def p del: dispatch.simps)
  also note reg
  finally have "chain_in_order ext parse uses [] c
     = (Inr (),
        ?s2\<lparr>cx := foldl (\<lambda>c f. snd (f c)) (cx ?s2) (concat uses),
          called := int (2 + length uses),
          entered := entered ?s2 @ map (\<lambda>fs. MiddlewareLayer (map Effect fs)) uses\<rparr>)" .
  then show ?thesis
    unfolding r using p by (simp add: enter_def logger_info_def)
qed

text \<open>
  Claim C8. \<open>configureMiddlewares\<close> gives the server the request logger, then the body
  parser, then one function for each class of the middleware store, in the order of the
  store. For every request the functions entered are an initial part of the server's
  middleware, in that order, and all of it when every one reaches its \<open>await next()\<close>.
  With a body parser that parses and awaits \<open>next\<close>, and classes whose \<open>use\<close> leaves the
  call of \<open>next\<close> to the function made for them, a request runs as \<open>chain_in_order\<close>
  says: logged as it came, parsed, then the \<open>use\<close> of each class in the order of
  registration, each inside the \<open>try\<close> of the one before. When nothing throws, the context
  at the end is the one the parser and then every \<open>use\<close>, in that order, have made.
\<close>

theorem middleware_chain_order:
  "middleware (configureMiddlewares store new_application)
     = RequestLogger # BodyParser [''json'', ''form'', ''text''] # map MiddlewareLayer store
   \<and> (\<exists>m \<le> length (middleware app).
         entered (snd (handle_request ext app c)) = take m (middleware app))
   \<and> ((\<forall>fn \<in> set (middleware app). proceeds ext fn) \<longrightarrow>
         entered (snd (handle_request ext app c)) = middleware app)
   \<and> (external ext (BodyParser [''json'', ''form'', ''text'']) = [Effect parse, AwaitNext] \<longrightarrow>
        (middleware app = middleware (configureMiddlewares (map (map Effect) uses) new_application)
                            @ later \<longrightarrow>
           handle_request ext app c = chain_in_order ext parse uses later c)
        \<and> ((\<forall>f \<in> set (parse # concat uses). \<forall>c'. fst (f c') = Inr ()) \<longrightarrow>
             handle_request ext (configureMiddlewares (map (map Effect) uses) new_application) c
               = (Inr (),
                  \<lparr>cx = foldl (\<lambda>c f. snd (f c)) c (parse # concat uses),
                   called = int (2 + length uses),
                   entered = RequestLogger # BodyParser [''json'', ''form'', ''text'']
                               # map (\<lambda>fs. MiddlewareLayer (map Effect fs)) uses,
                   lines = [''REQUEST: '' @ request_line ext c],
                   errors = []\<rparr>)))"
proof (intro conjI impI)
  show "middleware (configureMiddlewares store new_application)
     = RequestLogger # BodyParser [''json'', ''form'', ''text''] # map MiddlewareLayer store"
    by (rule new_application_stack)
next
  show "\<exists>m \<le> length (middleware app).
         entered (snd (handle_request ext app c)) = take m (middleware app)"
    using dispatch_order
      [of "\<lparr>cx = c, called = - 1, entered = [], lines = [], errors = []\<rparr>" 0 "middleware app" ext]
    by (simp add: handle_request_def)
next
  assume "\<forall>fn \<in> set (middleware app). proceeds ext fn"
  then show "entered (snd (handle_request ext app c)) = middleware app"
    using dispatch_complete
      [of "\<lparr>cx = c, called = - 1, entered = [], lines = [], errors = []\<rparr>" 0 "middleware app" ext]
    by (simp add: handle_request_def)
next
  assume "external ext (BodyParser [''json'', ''form'', ''text'']) = [Effect parse, AwaitNext]"
    and "middleware app = middleware (configureMiddlewares (map (map Effect) uses) new_application)
                            @ later"
  then show "handle_request ext app c = chain_in_order ext parse uses later c"
    by (rule handle_request_configured)
next
  assume "external ext (BodyParser [''json'', ''form'', ''text'']) = [Effect parse, AwaitNext]"
    and "\<forall>f \<in> set (parse # concat uses). \<forall>c'. fst (f c') = Inr ()"
  then show "handle_request ext (configureMiddlewares (map (map Effect) uses) new_application) c
               = (Inr (),
                  \<lparr>cx = foldl (\<lambda>c f. snd (f c)) c (parse # concat uses),
                   called = int (2 + length uses),
                   entered = RequestLogger # BodyParser [''json'', ''form'', ''text'']
                               # map (\<lambda>fs. MiddlewareLayer (map Effect fs)) uses,
                   lines = [''REQUEST: '' @ request_line ext c],
                   errors = []\<rparr>)"
    by (rule handle_request_quiet)
qed

theorem middleware_chain_order_witness:
  "handle_request
       \<lparr>request_line = (\<lambda>c. ''GET /''), external = (\<lambda>fn. [Effect (\<lambda>c. (Inr (), c)), AwaitNext])\<rparr>
       (configureMiddlewares
          (map (map Effect)
            [[\<lambda>c. (Inr (), c\<lparr>body := JNum (Finite 1)\<rparr>)],
             [\<lambda>c. (Inr (), if body c = JNum (Finite 1)
                            then c\<lparr>body := JNum (Finite 2)\<rparr>
                            else c\<lparr>body := JStr ''out of order''\<rparr>)]])
          new_application)
       \<lparr>request = (), status = JNum (Finite 404), body = JUndefined\<rparr>
   = (Inr (),
      \<lparr>cx = \<lparr>request = (), status = JNum (Finite 404), body = JNum (Finite 2)\<rparr>,
       called = 4,
       entered =
         [RequestLogger, BodyParser [''json'', ''form'', ''text''],
          MiddlewareLayer [Effect (\<lambda>c. (Inr (), c\<lparr>body := JNum (Finite 1)\<rparr>))],
          MiddlewareLayer
            [Effect (\<lambda>c. (Inr (), if body c = JNum (Finite 1)
                            then c\<lparr>body := JNum (Finite 2)\<rparr>
                            else c\<lparr>body := JStr ''out of order''\<rparr>))]],
       lines = [''REQUEST: GET /''],
       errors = []\<rparr>)"
proof -
  let ?ext = "\<lparr>request_line = (\<lambda>c. ''GET /''),
               external = (\<lambda>fn. [Effect (\<lambda>c. (Inr (), c)), AwaitNext])\<rparr>
              :: unit externals"
  let ?uses = "[[\<lambda>c. (Inr (), c\<lparr>body := JNum (Finite 1)\<rparr>)],
             [\<lambda>c. (Inr (), if body c = JNum (Finite 1)
                            then c\<lparr>body := JNum (Finite 2)\<rparr>
                            else c\<lparr>body := JStr ''out of order''\<rparr>)]] :: unit effect list list"
  let ?c = "\<lparr>request = (), status = JNum (Finite 404), body = JUndefined\<rparr>"
  have bp: "external ?ext (BodyParser [''json'', ''form'', ''text''])
              = [Effect (\<lambda>c. (Inr (), c)), AwaitNext]"
    by simp
  have q: "\<forall>f \<in> set ((\<lambda>c. (Inr (), c)) # concat ?uses). \<forall>c'. fst (f c') = Inr ()"
    by simp
  let ?app = "configureMiddlewares (map (map Effect) ?uses) new_application"
  have st: "middleware ?app = middleware ?app @ []" by simp
  have pr: "\<forall>fn \<in> set (middleware ?app). proceeds ?ext fn"
    unfolding new_application_stack by (simp add: proceeds_def)
  from middleware_chain_order [of "[]" ?app ?ext ?c "\<lambda>c. (Inr (), c)" ?uses "[]"] bp q st pr
  have "handle_request ?ext ?app ?c
          = (Inr (),
             \<lparr>cx = foldl (\<lambda>c f. snd (f c)) ?c ((\<lambda>c. (Inr (), c)) # concat ?uses),
              called = int (2 + length ?uses),
              entered = RequestLogger # BodyParser [''json'', ''form'', ''text'']
                          # map (\<lambda>fs. MiddlewareLayer (map Effect fs)) ?uses,
              lines = [''REQUEST: '' @ request_line ?ext ?c],
              errors = []\<rparr>)
        \<and> entered (snd (handle_request ?ext ?app ?c)) = middleware ?app
        \<and> handle_request ?ext ?app ?c
            = chain_in_order ?ext (\<lambda>c. (Inr (), c)) ?uses [] ?c"
    by blast
  then show ?thesis by simp
qed

end
